theory Spec2Isabelle
  imports Main
begin

section \<open>The schema-builder calls of the migration\<close>

text \<open>
  The migration file \<^verbatim>\<open>20200727145911_create-tables.js\<close> exports two functions,
  \<^verbatim>\<open>up\<close> and \<^verbatim>\<open>down\<close>. Each one chains calls on \<^verbatim>\<open>knex.schema\<close>; the callback
  given to \<^verbatim>\<open>createTable\<close> chains calls on the table builder \<^verbatim>\<open>tbl\<close>. The calls
  are data here, one constructor per method of the source, in the order of the source.
\<close>

type_synonym tname = string
type_synonym cname = string

datatype chain_call =
    Unsigned
  | NotNullable
  | Unique
  | References string
  | InTable tname
  | OnDelete string
  | OnUpdate string

datatype table_call =
    Tbl_increments
  | Tbl_string cname nat "chain_call list"
  | Tbl_integer cname "chain_call list"
  | Tbl_foreign cname "chain_call list"
  | Tbl_primary "cname list"

datatype schema_call =
    CreateTable tname "table_call list"
  | DropTableIfExists tname

text \<open>The four callbacks of \<^verbatim>\<open>up\<close>, lines 21 to 37, 38 to 41, 45 to 144 and 173 to 235.\<close>

definition zoos_callback :: "table_call list" where
  "zoos_callback =
     [Tbl_increments,
      Tbl_string ''zoo_name'' 255 [NotNullable],
      Tbl_string ''address'' 255 [NotNullable, Unique]]"

definition species_callback :: "table_call list" where
  "species_callback =
     [Tbl_increments,
      Tbl_string ''species_name'' 255 [NotNullable, Unique]]"

definition animals_callback :: "table_call list" where
  "animals_callback =
     [Tbl_increments,
      Tbl_string ''animal_name'' 255 [NotNullable],
      Tbl_integer ''species_id''
        [Unsigned, NotNullable, References ''species.id'',
         OnDelete ''CASCADE'', OnUpdate ''CASCADE'']]"

definition zoo_animals_callback :: "table_call list" where
  "zoo_animals_callback =
     [Tbl_integer ''zoo_id''
        [Unsigned, NotNullable, References ''id'', InTable ''zoos'',
         OnDelete ''CASCADE'', OnUpdate ''CASCADE''],
      Tbl_integer ''animal_id''
        [Unsigned, NotNullable, OnDelete ''CASCADE'', OnUpdate ''CASCADE''],
      Tbl_foreign ''animal_id'' [References ''animals.id''],
      Tbl_primary [''zoo_id'', ''animal_id'']]"

definition exports_up :: "schema_call list" where
  "exports_up =
    [CreateTable ''zoos'' zoos_callback,
     CreateTable ''species'' species_callback,
     CreateTable ''animals'' animals_callback,
     CreateTable ''zoo_animals'' zoo_animals_callback]"

definition exports_down :: "schema_call list" where
  "exports_down =
    [DropTableIfExists ''zoo_animals'',
     DropTableIfExists ''animals'',
     DropTableIfExists ''species'',
     DropTableIfExists ''zoos'']"

definition table_set :: "tname list" where
  "table_set = [''zoos'', ''species'', ''animals'', ''zoo_animals'']"

section \<open>Table definitions built by a callback\<close>

datatype col_type = Increments_t | String_t nat | Integer_t

record column =
  col_name :: cname
  col_type :: col_type
  col_unsigned :: bool
  col_nullable :: bool

text \<open>
  The object the table builder keeps for one foreign key: the referencing column, the
  referenced column and table, and the two actions. A field that no call has set is
  \<open>None\<close> (\<^verbatim>\<open>undefined\<close> in the source's language).
\<close>

record foreign_data =
  fk_column :: cname
  fk_references :: "cname option"
  fk_inTable :: "tname option"
  fk_onDelete :: "string option"
  fk_onUpdate :: "string option"

record table_def =
  columns :: "column list"
  uniques :: "cname list list"
  primaries :: "cname list list"
  foreigns :: "foreign_data list"

text \<open>
  The errors: \<open>TypeError\<close> is the exception of the source's language for a call of a
  method the receiver does not have; the other three are the schema errors of the
  specification, \<open>ConstraintViolation n c\<close> for a drop of \<open>n\<close> that table \<open>c\<close> still
  references.
\<close>

datatype error =
    TypeError
  | AlreadyExists tname
  | MissingDependency tname cname
  | ConstraintViolation tname tname

text \<open>
  The receiver of a chain: the column under construction (none on the object returned
  by \<^verbatim>\<open>tbl.foreign\<close>), the unique indexes the chain has asked for, the foreign key
  attached to the receiver, and whether the receiver is the object returned by
  \<^verbatim>\<open>references\<close> with an undotted name, which only has \<^verbatim>\<open>on\<close> and \<^verbatim>\<open>inTable\<close>.

  A column builder has the column modifiers and \<^verbatim>\<open>references\<close>. It gains the
  foreign-key methods \<^verbatim>\<open>onDelete\<close> and \<^verbatim>\<open>onUpdate\<close> when \<^verbatim>\<open>references\<close> is called on it:
  on a column with no reference they are not methods of the receiver, and calling one
  throws a \<open>TypeError\<close>. The object returned by \<^verbatim>\<open>tbl.foreign\<close> has \<^verbatim>\<open>references\<close>,
  \<^verbatim>\<open>onDelete\<close> and \<^verbatim>\<open>onUpdate\<close> and no column modifier.
\<close>

record receiver =
  rc_column :: "column option"
  rc_uniques :: "cname list list"
  rc_foreign :: "foreign_data option"
  rc_pending :: bool

fun split_dot :: "string \<Rightarrow> string list" where
  "split_dot [] = [[]]"
| "split_dot (c # cs) =
     (if c = CHR ''.'' then [] # split_dot cs
      else (case split_dot cs of [] \<Rightarrow> [[c]] | p # ps \<Rightarrow> (c # p) # ps))"

definition new_foreign :: "cname \<Rightarrow> foreign_data" where
  "new_foreign c =
     \<lparr>fk_column = c, fk_references = None, fk_inTable = None,
      fk_onDelete = None, fk_onUpdate = None\<rparr>"

definition references_call :: "string \<Rightarrow> foreign_data \<Rightarrow> receiver \<Rightarrow> receiver" where
  "references_call s fd rc =
     (case split_dot s of
        p0 # p1 # _ \<Rightarrow>
          rc\<lparr>rc_foreign := Some (fd\<lparr>fk_inTable := Some p0, fk_references := Some p1\<rparr>)\<rparr>
      | _ \<Rightarrow>
          rc\<lparr>rc_foreign := Some (fd\<lparr>fk_references := Some s\<rparr>), rc_pending := True\<rparr>)"

fun chain_step :: "chain_call \<Rightarrow> receiver \<Rightarrow> error + receiver" where
  "chain_step call rc =
     (if rc_pending rc then
        (case (call, rc_foreign rc) of
           (InTable t, Some fd) \<Rightarrow>
             Inr (rc\<lparr>rc_foreign := Some (fd\<lparr>fk_inTable := Some t\<rparr>), rc_pending := False\<rparr>)
         | _ \<Rightarrow> Inl TypeError)
      else
        (case call of
           Unsigned \<Rightarrow>
             (case rc_column rc of
                None \<Rightarrow> Inl TypeError
              | Some c \<Rightarrow> Inr (rc\<lparr>rc_column := Some (c\<lparr>col_unsigned := True\<rparr>)\<rparr>))
         | NotNullable \<Rightarrow>
             (case rc_column rc of
                None \<Rightarrow> Inl TypeError
              | Some c \<Rightarrow> Inr (rc\<lparr>rc_column := Some (c\<lparr>col_nullable := False\<rparr>)\<rparr>))
         | Unique \<Rightarrow>
             (case rc_column rc of
                None \<Rightarrow> Inl TypeError
              | Some c \<Rightarrow> Inr (rc\<lparr>rc_uniques := rc_uniques rc @ [[col_name c]]\<rparr>))
         | References s \<Rightarrow>
             (case (rc_foreign rc, rc_column rc) of
                (Some fd, _) \<Rightarrow> Inr (references_call s fd rc)
              | (None, Some c) \<Rightarrow> Inr (references_call s (new_foreign (col_name c)) rc)
              | (None, None) \<Rightarrow> Inl TypeError)
         | InTable t \<Rightarrow> Inl TypeError
         | OnDelete a \<Rightarrow>
             (case rc_foreign rc of
                Some fd \<Rightarrow> Inr (rc\<lparr>rc_foreign := Some (fd\<lparr>fk_onDelete := Some a\<rparr>)\<rparr>)
              | None \<Rightarrow> Inl TypeError)
         | OnUpdate a \<Rightarrow>
             (case rc_foreign rc of
                Some fd \<Rightarrow> Inr (rc\<lparr>rc_foreign := Some (fd\<lparr>fk_onUpdate := Some a\<rparr>)\<rparr>)
              | None \<Rightarrow> Inl TypeError)))"

fun chain :: "chain_call list \<Rightarrow> receiver \<Rightarrow> error + receiver" where
  "chain [] rc = Inr rc"
| "chain (call # calls) rc =
     (case chain_step call rc of Inl e \<Rightarrow> Inl e | Inr rc' \<Rightarrow> chain calls rc')"

definition column_builder :: "cname \<Rightarrow> col_type \<Rightarrow> receiver" where
  "column_builder n ty =
     \<lparr>rc_column = Some \<lparr>col_name = n, col_type = ty, col_unsigned = False, col_nullable = True\<rparr>,
      rc_uniques = [], rc_foreign = None, rc_pending = False\<rparr>"

definition foreign_builder :: "cname \<Rightarrow> receiver" where
  "foreign_builder c =
     \<lparr>rc_column = None, rc_uniques = [], rc_foreign = Some (new_foreign c), rc_pending = False\<rparr>"

definition absorb :: "table_def \<Rightarrow> receiver \<Rightarrow> table_def" where
  "absorb td rc =
     td\<lparr>columns := columns td @ (case rc_column rc of None \<Rightarrow> [] | Some c \<Rightarrow> [c]),
        uniques := uniques td @ rc_uniques rc,
        foreigns := foreigns td @ (case rc_foreign rc of None \<Rightarrow> [] | Some fd \<Rightarrow> [fd])\<rparr>"

text \<open>
  \<^verbatim>\<open>tbl.increments()\<close> with no argument makes the column \<^verbatim>\<open>id\<close>: auto-incrementing,
  unsigned, not nullable, and the primary key of the table.
\<close>

fun table_call_step :: "table_call \<Rightarrow> table_def \<Rightarrow> error + table_def" where
  "table_call_step Tbl_increments td =
     Inr (td\<lparr>columns := columns td @
                [\<lparr>col_name = ''id'', col_type = Increments_t,
                  col_unsigned = True, col_nullable = False\<rparr>],
             primaries := primaries td @ [[''id'']]\<rparr>)"
| "table_call_step (Tbl_string n len calls) td =
     (case chain calls (column_builder n (String_t len)) of
        Inl e \<Rightarrow> Inl e | Inr rc \<Rightarrow> Inr (absorb td rc))"
| "table_call_step (Tbl_integer n calls) td =
     (case chain calls (column_builder n Integer_t) of
        Inl e \<Rightarrow> Inl e | Inr rc \<Rightarrow> Inr (absorb td rc))"
| "table_call_step (Tbl_foreign c calls) td =
     (case chain calls (foreign_builder c) of
        Inl e \<Rightarrow> Inl e | Inr rc \<Rightarrow> Inr (absorb td rc))"
| "table_call_step (Tbl_primary cs) td = Inr (td\<lparr>primaries := primaries td @ [cs]\<rparr>)"

fun table_calls :: "table_call list \<Rightarrow> table_def \<Rightarrow> error + table_def" where
  "table_calls [] td = Inr td"
| "table_calls (c # cs) td =
     (case table_call_step c td of Inl e \<Rightarrow> Inl e | Inr td' \<Rightarrow> table_calls cs td')"

definition empty_def :: table_def where
  "empty_def = \<lparr>columns = [], uniques = [], primaries = [], foreigns = []\<rparr>"

definition table_builder :: "table_call list \<Rightarrow> error + table_def" where
  "table_builder calls = table_calls calls empty_def"

section \<open>The database\<close>

text \<open>
  The handle given to \<^verbatim>\<open>up\<close> and \<^verbatim>\<open>down\<close> stands for a relational database. Its
  state is the list of its tables by name, each with its definition and its rows, in
  creation order. Every operation reads a table through \<open>map_of\<close>. A row gives values
  to column names.
\<close>

datatype val = Null | IntV int | StrV string

type_synonym row = "(cname \<times> val) list"

record table =
  tdef :: table_def
  rows :: "row list"

type_synonym db = "(tname \<times> table) list"

definition foreigns_of :: "db \<Rightarrow> tname \<Rightarrow> foreign_data list" where
  "foreigns_of d t = (case map_of d t of None \<Rightarrow> [] | Some tb \<Rightarrow> foreigns (tdef tb))"

subsection \<open>Schema statements\<close>

datatype statement = CreateSql tname table_def | DropIfExistsSql tname

definition dangling :: "db \<Rightarrow> tname \<Rightarrow> foreign_data \<Rightarrow> bool" where
  "dangling d n fd =
     (case fk_inTable fd of
        None \<Rightarrow> True
      | Some t \<Rightarrow> t \<noteq> n \<and> map_of d t = None)"

text \<open>
  Modelled from the spec: the database engine behind the handle, and the configuration
  that selects it, are not among the files of the repository. Section 7 of the
  specification: \<^verbatim>\<open>apply\<close> on a table that already exists is the error
  \<open>AlreadyExists\<close>; a \<^verbatim>\<open>CREATE TABLE\<close> with a foreign key, attempted before its
  referenced table exists, is the error \<open>MissingDependency\<close>. A created table has no
  rows.
\<close>

definition create_table :: "tname \<Rightarrow> table_def \<Rightarrow> db \<Rightarrow> error + db" where
  "create_table n td d =
     (if map_of d n \<noteq> None then Inl (AlreadyExists n)
      else (case find (dangling d n) (foreigns td) of
              Some fd \<Rightarrow> Inl (MissingDependency n (fk_column fd))
            | None \<Rightarrow> Inr (d @ [(n, \<lparr>tdef = td, rows = []\<rparr>)])))"

definition refers :: "db \<Rightarrow> tname \<Rightarrow> tname \<Rightarrow> bool" where
  "refers d n c = (c \<noteq> n \<and> list_ex (\<lambda>fd. fk_inTable fd = Some n) (foreigns_of d c))"

text \<open>
  Modelled from the spec: the engine's drop is not among the files of the repository.
  Section 4.1 of the specification: each drop is tolerant of the table not existing,
  and a drop fails for a remaining foreign-key reference from another table; section 7
  names that error \<open>ConstraintViolation\<close>, raised when a drop would violate integrity
  outside the migration's control. The comment above \<^verbatim>\<open>exports.down\<close> (lines 242
  to 247) says the same of dropping \<^verbatim>\<open>species\<close> before \<^verbatim>\<open>animals\<close>. A drop that
  succeeds removes the table and changes no other table.
\<close>

definition drop_table_if_exists :: "tname \<Rightarrow> db \<Rightarrow> error + db" where
  "drop_table_if_exists n d =
     (if map_of d n = None then Inr d
      else (case find (refers d n) (map fst d) of
              Some c \<Rightarrow> Inl (ConstraintViolation n c)
            | None \<Rightarrow> Inr (filter (\<lambda>(c, tb). c \<noteq> n) d)))"

fun exec :: "statement \<Rightarrow> db \<Rightarrow> error + db" where
  "exec (CreateSql n td) d = create_table n td d"
| "exec (DropIfExistsSql n) d = drop_table_if_exists n d"

text \<open>
  Awaiting a schema builder first turns every queued call into statements, running
  each \<^verbatim>\<open>createTable\<close> callback in queue order, and then executes the statements one
  after the other, stopping at the first that fails. An exception thrown by a callback
  therefore rejects before any statement has run; a failing statement leaves the
  effects of the statements before it.
\<close>

fun toSQL :: "schema_call list \<Rightarrow> error + statement list" where
  "toSQL [] = Inr []"
| "toSQL (CreateTable n calls # rest) =
     (case table_builder calls of
        Inl e \<Rightarrow> Inl e
      | Inr td \<Rightarrow> (case toSQL rest of Inl e \<Rightarrow> Inl e | Inr qs \<Rightarrow> Inr (CreateSql n td # qs)))"
| "toSQL (DropTableIfExists n # rest) =
     (case toSQL rest of Inl e \<Rightarrow> Inl e | Inr qs \<Rightarrow> Inr (DropIfExistsSql n # qs))"

fun run_all :: "statement list \<Rightarrow> db \<Rightarrow> error option \<times> db" where
  "run_all [] d = (None, d)"
| "run_all (q # qs) d =
     (case exec q d of Inl e \<Rightarrow> (Some e, d) | Inr d' \<Rightarrow> run_all qs d')"

definition run_schema :: "schema_call list \<Rightarrow> db \<Rightarrow> error option \<times> db" where
  "run_schema calls d =
     (case toSQL calls of Inl e \<Rightarrow> (Some e, d) | Inr qs \<Rightarrow> run_all qs d)"

definition up :: "db \<Rightarrow> error option \<times> db" where
  "up d = run_schema exports_up d"

definition down :: "db \<Rightarrow> error option \<times> db" where
  "down d = run_schema exports_down d"

section \<open>The schema the migration declares\<close>

text \<open>
  The definitions of the data model for the three tables whose callbacks build
  (lemma \<open>callbacks_build\<close>). The callback of \<^verbatim>\<open>zoo_animals\<close> builds none
  (lemma \<open>zoo_animals_callback_raises\<close>).
\<close>

definition zoos_def :: table_def where
  "zoos_def =
     \<lparr>columns =
        [\<lparr>col_name = ''id'', col_type = Increments_t, col_unsigned = True, col_nullable = False\<rparr>,
         \<lparr>col_name = ''zoo_name'', col_type = String_t 255, col_unsigned = False, col_nullable = False\<rparr>,
         \<lparr>col_name = ''address'', col_type = String_t 255, col_unsigned = False, col_nullable = False\<rparr>],
      uniques = [[''address'']], primaries = [[''id'']], foreigns = []\<rparr>"

definition species_def :: table_def where
  "species_def =
     \<lparr>columns =
        [\<lparr>col_name = ''id'', col_type = Increments_t, col_unsigned = True, col_nullable = False\<rparr>,
         \<lparr>col_name = ''species_name'', col_type = String_t 255, col_unsigned = False, col_nullable = False\<rparr>],
      uniques = [[''species_name'']], primaries = [[''id'']], foreigns = []\<rparr>"

definition animals_def :: table_def where
  "animals_def =
     \<lparr>columns =
        [\<lparr>col_name = ''id'', col_type = Increments_t, col_unsigned = True, col_nullable = False\<rparr>,
         \<lparr>col_name = ''animal_name'', col_type = String_t 255, col_unsigned = False, col_nullable = False\<rparr>,
         \<lparr>col_name = ''species_id'', col_type = Integer_t, col_unsigned = True, col_nullable = False\<rparr>],
      uniques = [], primaries = [[''id'']],
      foreigns =
        [\<lparr>fk_column = ''species_id'', fk_references = Some ''id'', fk_inTable = Some ''species'',
          fk_onDelete = Some ''CASCADE'', fk_onUpdate = Some ''CASCADE''\<rparr>]\<rparr>"

definition empty_table :: "table_def \<Rightarrow> table" where
  "empty_table td = \<lparr>tdef = td, rows = []\<rparr>"

definition target :: "schema_call \<Rightarrow> tname" where
  "target c = (case c of CreateTable n calls \<Rightarrow> n | DropTableIfExists n \<Rightarrow> n)"

fun stmt_target :: "statement \<Rightarrow> tname" where
  "stmt_target (CreateSql n td) = n"
| "stmt_target (DropIfExistsSql n) = n"

definition is_drop :: "statement \<Rightarrow> bool" where
  "is_drop q = (case q of CreateSql n td \<Rightarrow> False | DropIfExistsSql n \<Rightarrow> True)"




text \<open>The statements \<^verbatim>\<open>down\<close> hands to the engine (lemma \<open>down_eq\<close>).\<close>

definition down_statements :: "statement list" where
  "down_statements =
     [DropIfExistsSql ''zoo_animals'', DropIfExistsSql ''animals'',
      DropIfExistsSql ''species'', DropIfExistsSql ''zoos'']"

text \<open>
  \<open>dropped_before c n\<close>: \<^verbatim>\<open>down\<close> drops \<open>c\<close> before it drops \<open>n\<close>. A database is
  revertible when every table of the set that exists is referenced only by itself and
  by tables that \<^verbatim>\<open>down\<close> drops before it.
\<close>

definition dropped_before :: "tname \<Rightarrow> tname \<Rightarrow> bool" where
  "dropped_before c n = (n \<in> set (tl (dropWhile (\<lambda>x. x \<noteq> c) (map target exports_down))))"

definition blocks :: "db \<Rightarrow> tname \<Rightarrow> foreign_data \<Rightarrow> bool" where
  "blocks d c fd =
     (case fk_inTable fd of
        None \<Rightarrow> False
      | Some n \<Rightarrow> n \<in> set table_set \<and> map_of d n \<noteq> None \<and> c \<noteq> n \<and> \<not> dropped_before c n)"

definition revertible :: "db \<Rightarrow> bool" where
  "revertible d =
     list_all (\<lambda>c. list_all (\<lambda>fd. \<not> blocks d c fd) (foreigns_of d c)) (map fst d)"

section \<open>Concrete databases\<close>

text \<open>
  The inputs of the examples: a database with one table outside the set; a database
  where only \<^verbatim>\<open>species\<close> exists; one where \<^verbatim>\<open>zoos\<close> and \<^verbatim>\<open>species\<close> exist; one
  in which a table outside the set holds a row that references a row of \<^verbatim>\<open>zoos\<close>;
  one where \<^verbatim>\<open>species\<close> and \<^verbatim>\<open>animals\<close> exist; and one with a table outside the set
  beside \<^verbatim>\<open>zoos\<close> and \<^verbatim>\<open>species\<close>.
\<close>

definition keepers_db :: db where
  "keepers_db =
     [(''keepers'',
       \<lparr>tdef = \<lparr>columns = [\<lparr>col_name = ''name'', col_type = String_t 255,
                             col_unsigned = False, col_nullable = False\<rparr>],
                 uniques = [], primaries = [], foreigns = []\<rparr>,
        rows = [[(''name'', StrV ''Ann'')]]\<rparr>)]"

definition species_db :: db where
  "species_db = [(''species'', empty_table species_def)]"

definition partial_db :: db where
  "partial_db = [(''zoos'', empty_table zoos_def), (''species'', empty_table species_def)]"

definition tickets_def :: table_def where
  "tickets_def =
     \<lparr>columns = [\<lparr>col_name = ''zoo_id'', col_type = Integer_t,
                  col_unsigned = True, col_nullable = False\<rparr>],
      uniques = [], primaries = [],
      foreigns = [\<lparr>fk_column = ''zoo_id'', fk_references = Some ''id'',
                   fk_inTable = Some ''zoos'', fk_onDelete = None, fk_onUpdate = None\<rparr>]\<rparr>"

definition tickets_db :: db where
  "tickets_db =
     [(''zoos'', \<lparr>tdef = zoos_def,
          rows = [[(''id'', IntV 1), (''zoo_name'', StrV ''Metro Zoo''),
                   (''address'', StrV ''1 Zoo Way, Springfield'')]]\<rparr>),
      (''tickets'', \<lparr>tdef = tickets_def, rows = [[(''zoo_id'', IntV 1)]]\<rparr>)]"

definition species_animals_db :: db where
  "species_animals_db =
     [(''species'', empty_table species_def), (''animals'', empty_table animals_def)]"

definition mixed_db :: db where
  "mixed_db = keepers_db @ partial_db"

section \<open>What the builder produces\<close>

lemma callbacks_build:
  "table_builder zoos_callback = Inr zoos_def \<and>
   table_builder species_callback = Inr species_def \<and>
   table_builder animals_callback = Inr animals_def"
  by (simp add: zoos_callback_def species_callback_def animals_callback_def table_builder_def
      empty_def_def column_builder_def absorb_def references_call_def new_foreign_def
      zoos_def_def species_def_def animals_def_def)

lemma animal_id_chain_raises:
  "chain [Unsigned, NotNullable, OnDelete ''CASCADE'', OnUpdate ''CASCADE'']
     (column_builder ''animal_id'' Integer_t) = Inl TypeError"
  by (simp add: column_builder_def)

lemma zoo_animals_callback_raises: "table_builder zoo_animals_callback = Inl TypeError"
  by (simp add: zoo_animals_callback_def table_builder_def empty_def_def column_builder_def
      absorb_def references_call_def new_foreign_def)

lemma toSQL_up: "toSQL exports_up = Inl TypeError"
  by (simp add: exports_up_def callbacks_build zoo_animals_callback_raises)

lemma up_fails: "up d = (Some TypeError, d)"
  by (simp add: up_def run_schema_def toSQL_up)

lemma toSQL_down: "toSQL exports_down = Inr down_statements"
  by (simp add: exports_down_def down_statements_def)

lemma down_eq: "down d = run_all down_statements d"
  by (simp add: down_def run_schema_def toSQL_down)


section \<open>The tables a callback names\<close>









section \<open>A drop changes the named table only\<close>

lemma map_of_drop: "map_of (filter (\<lambda>(c, tb). c \<noteq> n) d) t = (if t = n then None else map_of d t)"
  by (induction d) auto

lemma filter_absent: "map_of d n = None \<Longrightarrow> filter (\<lambda>(c, tb). c \<noteq> n) d = d"
  by (induction d) (auto split: if_splits)

lemma map_of_keep: "map_of (filter (\<lambda>(c, tb). c \<notin> S) d) t = (if t \<in> S then None else map_of d t)"
  by (induction d) auto

lemma foreigns_of_keep:
  "foreigns_of (filter (\<lambda>(c, tb). c \<notin> S) d) c = (if c \<in> S then [] else foreigns_of d c)"
  by (simp add: foreigns_of_def map_of_keep)

lemma names_keep: "set (map fst (filter (\<lambda>(c, tb). c \<notin> S) d)) = set (map fst d) - S"
  by (induction d) auto

lemma keep_keep:
  "filter (\<lambda>(c, tb). c \<noteq> n) (filter (\<lambda>(c, tb). c \<notin> S) d) = filter (\<lambda>(c, tb). c \<notin> insert n S) d"
  by (induction d) auto

lemma foreigns_of_drop:
  "foreigns_of (filter (\<lambda>(c, tb). c \<noteq> n) d) c = (if c = n then [] else foreigns_of d c)"
  by (simp add: foreigns_of_def map_of_drop)

lemma names_drop: "set (map fst (filter (\<lambda>(c, tb). c \<noteq> n) d)) = set (map fst d) - {n}"
  by (induction d) auto

lemma keep_nothing: "filter (\<lambda>(c, tb). c \<notin> {}) d = d"
  by simp

lemma keep_absent: "\<forall>t\<in>S. map_of d t = None \<Longrightarrow> filter (\<lambda>(c, tb). c \<notin> S) d = d"
  by (induction d) (auto split: if_splits)

lemma drop_result:
  "drop_table_if_exists n d = Inr d' \<Longrightarrow> d' = filter (\<lambda>(c, tb). c \<noteq> n) d"
  by (auto simp: drop_table_if_exists_def filter_absent split: if_splits option.splits)

lemma run_all_drops:
  "list_all is_drop qs \<Longrightarrow>
     \<exists>S. S \<subseteq> stmt_target ` set qs \<and> snd (run_all qs d) = filter (\<lambda>(c, tb). c \<notin> S) d"
proof (induction qs arbitrary: d)
  case Nil
  have "{} \<subseteq> stmt_target ` set []" "snd (run_all [] d) = filter (\<lambda>(c, tb). c \<notin> {}) d"
    by simp_all
  then show ?case by blast
next
  case (Cons q qs)
  from Cons.prems obtain n where q: "q = DropIfExistsSql n"
    by (cases q) (auto simp: is_drop_def)
  show ?case
  proof (cases "drop_table_if_exists n d")
    case (Inl e)
    then have "snd (run_all (q # qs) d) = filter (\<lambda>(c, tb). c \<notin> {}) d" by (simp add: q)
    then show ?thesis by blast
  next
    case (Inr d')
    have rest: "list_all is_drop qs" using Cons.prems by simp
    from Cons.IH [OF rest, of d'] obtain S where S: "S \<subseteq> stmt_target ` set qs"
      and r: "snd (run_all qs d') = filter (\<lambda>(c, tb). c \<notin> S) d'" by blast
    have d': "d' = filter (\<lambda>(c, tb). c \<notin> {n}) d" using drop_result [OF Inr] by simp
    have "filter (\<lambda>(c, tb). c \<notin> S) (filter (\<lambda>(c, tb). c \<notin> {n}) d)
            = filter (\<lambda>(c, tb). c \<notin> insert n S) d"
      by (induction d) auto
    then have "snd (run_all (q # qs) d) = filter (\<lambda>(c, tb). c \<notin> insert n S) d"
      using Inr r d' by (simp add: q)
    moreover have "insert n S \<subseteq> stmt_target ` set (q # qs)" using S by (auto simp: q)
    ultimately show ?thesis by blast
  qed
qed

lemma down_targets: "stmt_target ` set down_statements = set table_set"
  by (auto simp: down_statements_def table_set_def)

lemma down_removes:
  "\<exists>S. S \<subseteq> set table_set \<and> snd (down d) = filter (\<lambda>(c, tb). c \<notin> S) d"
proof -
  have "list_all is_drop down_statements"
    by (simp add: is_drop_def down_statements_def)
  from run_all_drops [OF this, of d] show ?thesis
    by (simp add: down_eq down_targets)
qed

lemma down_frame: "t \<notin> set table_set \<Longrightarrow> map_of (snd (down d)) t = map_of d t"
  using down_removes [of d] by (auto simp: map_of_keep)

lemma down_absent:
  assumes "\<forall>t\<in>set table_set. map_of d t = None"
  shows "down d = (None, d)"
  using assms by (simp add: down_eq down_statements_def drop_table_if_exists_def table_set_def)

section \<open>Dropping in order\<close>

lemma drop_unreferenced:
  assumes "map_of d n \<noteq> None \<longrightarrow> (\<forall>c\<in>set (map fst d). \<not> refers d n c)"
  shows "drop_table_if_exists n d = Inr (filter (\<lambda>(c, tb). c \<noteq> n) d)"
proof (cases "map_of d n")
  case None
  then show ?thesis by (simp add: drop_table_if_exists_def filter_absent)
next
  case (Some tb)
  then have "find (refers d n) (map fst d) = None"
    using assms by (simp add: find_None_iff)
  then show ?thesis using Some by (simp add: drop_table_if_exists_def)
qed

lemma drop_refused:
  assumes "map_of d n \<noteq> None" "c \<in> set (map fst d)" "refers d n c"
  shows "\<exists>e. drop_table_if_exists n d = Inl e"
proof -
  have "find (refers d n) (map fst d) \<noteq> None"
    using assms(2,3) by (auto simp: find_None_iff)
  then show ?thesis using assms(1) by (auto simp: drop_table_if_exists_def)
qed

lemma revertibleD:
  assumes "revertible d" "c \<in> set (map fst d)" "fd \<in> set (foreigns_of d c)"
    "fk_inTable fd = Some n" "n \<in> set table_set" "map_of d n \<noteq> None" "c \<noteq> n"
  shows "dropped_before c n"
proof -
  from assms(1,2,3) have "\<not> blocks d c fd"
    unfolding revertible_def list_all_iff by blast
  then show ?thesis using assms(4-7) by (simp add: blocks_def)
qed

lemma not_revertibleD:
  assumes "\<not> revertible d"
  obtains c fd n where "c \<in> set (map fst d)" "fd \<in> set (foreigns_of d c)"
    "fk_inTable fd = Some n" "n \<in> set table_set" "map_of d n \<noteq> None" "c \<noteq> n"
    "\<not> dropped_before c n"
proof -
  from assms obtain c fd where "c \<in> set (map fst d)" "fd \<in> set (foreigns_of d c)" "blocks d c fd"
    unfolding revertible_def list_all_iff by blast
  then show ?thesis using that by (auto simp: blocks_def split: option.splits)
qed

lemma dropped_before_cases:
  "dropped_before c n =
     (c = ''zoo_animals'' \<and> n \<in> {''animals'', ''species'', ''zoos''} \<or>
      c = ''animals'' \<and> n \<in> {''species'', ''zoos''} \<or>
      c = ''species'' \<and> n = ''zoos'')"
  by (auto simp: dropped_before_def exports_down_def target_def)

lemma drop_step:
  assumes rev: "revertible d" and n: "n \<in> set table_set" and nS: "n \<notin> S"
    and S: "\<forall>c. dropped_before c n \<longrightarrow> c \<in> S"
  shows "drop_table_if_exists n (filter (\<lambda>(c, tb). c \<notin> S) d) =
           Inr (filter (\<lambda>(c, tb). c \<notin> insert n S) d)"
proof -
  let ?d = "filter (\<lambda>(c, tb). c \<notin> S) d"
  have "map_of ?d n \<noteq> None \<longrightarrow> (\<forall>c\<in>set (map fst ?d). \<not> refers ?d n c)"
  proof (intro impI ballI)
    fix c assume ex: "map_of ?d n \<noteq> None" and c: "c \<in> set (map fst ?d)"
    from ex have exd: "map_of d n \<noteq> None" by (simp add: map_of_keep split: if_splits)
    from c have cd: "c \<in> set (map fst d)" and cS: "c \<notin> S"
      using names_keep [of S d] by auto
    show "\<not> refers ?d n c"
    proof
      assume "refers ?d n c"
      then obtain fd where "c \<noteq> n" "fd \<in> set (foreigns_of d c)" "fk_inTable fd = Some n"
        using cS by (auto simp: refers_def list_ex_iff foreigns_of_keep)
      from revertibleD [OF rev cd this(2) this(3) n exd this(1)] S cS show False by blast
    qed
  qed
  from drop_unreferenced [OF this] show ?thesis by (simp only: keep_keep)
qed

lemma down_revertible:
  assumes "revertible d"
  shows "down d = (None, filter (\<lambda>(c, tb). c \<notin> set table_set) d)"
proof -
  have s1: "drop_table_if_exists ''zoo_animals'' d = Inr (filter (\<lambda>(c, tb). c \<notin> {''zoo_animals''}) d)"
    using drop_step [OF assms, of "''zoo_animals''" "{}"]
    by (simp add: table_set_def dropped_before_cases)
  have s2: "drop_table_if_exists ''animals'' (filter (\<lambda>(c, tb). c \<notin> {''zoo_animals''}) d)
      = Inr (filter (\<lambda>(c, tb). c \<notin> {''animals'', ''zoo_animals''}) d)"
    using drop_step [OF assms, of "''animals''" "{''zoo_animals''}"]
    by (simp add: table_set_def dropped_before_cases)
  have s3: "drop_table_if_exists ''species'' (filter (\<lambda>(c, tb). c \<notin> {''animals'', ''zoo_animals''}) d)
      = Inr (filter (\<lambda>(c, tb). c \<notin> {''species'', ''animals'', ''zoo_animals''}) d)"
    using drop_step [OF assms, of "''species''" "{''animals'', ''zoo_animals''}"]
    by (simp add: table_set_def dropped_before_cases)
  have s4: "drop_table_if_exists ''zoos'' (filter (\<lambda>(c, tb). c \<notin> {''species'', ''animals'', ''zoo_animals''}) d)
      = Inr (filter (\<lambda>(c, tb). c \<notin> {''zoos'', ''species'', ''animals'', ''zoo_animals''}) d)"
    using drop_step [OF assms, of "''zoos''" "{''species'', ''animals'', ''zoo_animals''}"]
    by (simp add: table_set_def dropped_before_cases)
  have "set table_set = {''zoos'', ''species'', ''animals'', ''zoo_animals''}"
    by (simp add: table_set_def)
  then show ?thesis
    using s1 s2 s3 s4 by (simp add: down_eq down_statements_def)
qed

text \<open>
  The converse: a key that blocks makes the run of the drops fail. The run reaches the
  drop of the referenced table with the referencing table still present, unless an
  earlier drop has failed already.
\<close>

lemma run_drops_blocked:
  assumes "c \<notin> set pre" "n \<notin> set pre" "c \<noteq> n" "map_of d n \<noteq> None"
    "c \<in> set (map fst d)" "fd \<in> set (foreigns_of d c)" "fk_inTable fd = Some n"
  shows "fst (run_all (map DropIfExistsSql (pre @ n # post)) d) \<noteq> None"
  using assms
proof (induction pre arbitrary: d)
  case Nil
  have "refers d n c" using Nil.prems by (auto simp: refers_def list_ex_iff)
  from drop_refused [OF Nil.prems(4,5) this] show ?case by auto
next
  case (Cons p pre)
  show ?case
  proof (cases "drop_table_if_exists p d")
    case (Inl e)
    then show ?thesis by simp
  next
    case (Inr d')
    from drop_result [OF Inr] have d': "d' = filter (\<lambda>(x, tb). x \<noteq> p) d" .
    have cp: "c \<noteq> p" and np: "n \<noteq> p" using Cons.prems by auto
    have "fst (run_all (map DropIfExistsSql (pre @ n # post)) d') \<noteq> None"
    proof (rule Cons.IH)
      show "c \<notin> set pre" "n \<notin> set pre" "c \<noteq> n" using Cons.prems by auto
      show "map_of d' n \<noteq> None" using Cons.prems(4) np by (simp add: d' map_of_drop)
      show "c \<in> set (map fst d')" using Cons.prems(5) cp unfolding d' names_drop by simp
      show "fd \<in> set (foreigns_of d' c)" using Cons.prems(6) cp by (simp add: d' foreigns_of_drop)
      show "fk_inTable fd = Some n" by (rule Cons.prems(7))
    qed
    then show ?thesis using Inr by simp
  qed
qed

lemma down_blocked:
  assumes "\<not> revertible d"
  shows "fst (down d) \<noteq> None"
proof -
  from assms obtain c fd n where c: "c \<in> set (map fst d)" and fd: "fd \<in> set (foreigns_of d c)"
    and t: "fk_inTable fd = Some n" and n: "n \<in> set table_set" and ex: "map_of d n \<noteq> None"
    and cn: "c \<noteq> n" and nb: "\<not> dropped_before c n"
    by (rule not_revertibleD)
  from n obtain pre post where
    split: "[''zoo_animals'', ''animals'', ''species'', ''zoos''] = pre @ n # post"
    and before: "\<forall>x\<in>set pre. dropped_before x n" and npre: "n \<notin> set pre"
  proof -
    from n consider "n = ''zoo_animals''" | "n = ''animals''" | "n = ''species''" | "n = ''zoos''"
      by (auto simp: table_set_def)
    then show ?thesis
    proof cases
      case 1
      then show ?thesis
        using that [of "[]" "[''animals'', ''species'', ''zoos'']"] by simp
    next
      case 2
      then show ?thesis
        using that [of "[''zoo_animals'']" "[''species'', ''zoos'']"]
        by (simp add: dropped_before_cases)
    next
      case 3
      then show ?thesis
        using that [of "[''zoo_animals'', ''animals'']" "[''zoos'']"]
        by (simp add: dropped_before_cases)
    next
      case 4
      then show ?thesis
        using that [of "[''zoo_animals'', ''animals'', ''species'']" "[]"]
        by (simp add: dropped_before_cases)
    qed
  qed
  have cpre: "c \<notin> set pre" using before nb by blast
  have "down_statements = map DropIfExistsSql (pre @ n # post)"
    using split [symmetric] by (simp add: down_statements_def)
  then show ?thesis
    using run_drops_blocked [OF cpre npre cn ex c fd t, of post] by (simp add: down_eq)
qed

lemma down_succeeds_iff: "(fst (down d) = None) = revertible d"
proof
  assume "fst (down d) = None"
  then show "revertible d" using down_blocked [of d] by blast
next
  assume "revertible d"
  then show "fst (down d) = None" by (simp add: down_revertible)
qed

lemma absent_revertible:
  assumes "\<forall>t\<in>set table_set. map_of d t = None"
  shows "revertible d"
  using assms unfolding revertible_def list_all_iff
  by (auto simp: blocks_def split: option.splits)

section \<open>Cascading deletes\<close>

text \<open>
  Claim C1 fails on the code. Lines 195 to 200 call \<^verbatim>\<open>onDelete\<close> on the column
  \<^verbatim>\<open>animal_id\<close> before any reference exists, which throws a \<open>TypeError\<close>: the callback
  of \<^verbatim>\<open>zoo_animals\<close> builds nothing, and \<^verbatim>\<open>up\<close> fails from every database before any
  statement runs, so no schema is produced. The foreign key that line 201 declares,
  \<^verbatim>\<open>tbl.foreign("animal_id").references("animals.id")\<close>, carries no action either. The
  two sibling keys, \<^verbatim>\<open>animals.species_id\<close> and \<^verbatim>\<open>zoo_animals.zoo_id\<close>, call the two
  methods after \<^verbatim>\<open>references\<close> and carry \<^verbatim>\<open>CASCADE\<close>.
\<close>

theorem animal_id_key_has_no_cascade:
  "chain [Unsigned, NotNullable, OnDelete ''CASCADE'', OnUpdate ''CASCADE'']
     (column_builder ''animal_id'' Integer_t) = Inl TypeError \<and>
   table_builder zoo_animals_callback = Inl TypeError \<and>
   up d = (Some TypeError, d) \<and>
   table_call_step (Tbl_foreign ''animal_id'' [References ''animals.id'']) empty_def =
     Inr (empty_def\<lparr>foreigns :=
       [\<lparr>fk_column = ''animal_id'', fk_references = Some ''id'', fk_inTable = Some ''animals'',
         fk_onDelete = None, fk_onUpdate = None\<rparr>]\<rparr>) \<and>
   table_call_step
     (Tbl_integer ''zoo_id''
        [Unsigned, NotNullable, References ''id'', InTable ''zoos'',
         OnDelete ''CASCADE'', OnUpdate ''CASCADE'']) empty_def =
     Inr (empty_def\<lparr>
       columns := [\<lparr>col_name = ''zoo_id'', col_type = Integer_t, col_unsigned = True,
                    col_nullable = False\<rparr>],
       foreigns :=
       [\<lparr>fk_column = ''zoo_id'', fk_references = Some ''id'', fk_inTable = Some ''zoos'',
         fk_onDelete = Some ''CASCADE'', fk_onUpdate = Some ''CASCADE''\<rparr>]\<rparr>) \<and>
   table_builder animals_callback = Inr animals_def \<and>
   foreigns animals_def =
     [\<lparr>fk_column = ''species_id'', fk_references = Some ''id'', fk_inTable = Some ''species'',
       fk_onDelete = Some ''CASCADE'', fk_onUpdate = Some ''CASCADE''\<rparr>]"
proof (intro conjI)
  show "chain [Unsigned, NotNullable, OnDelete ''CASCADE'', OnUpdate ''CASCADE'']
     (column_builder ''animal_id'' Integer_t) = Inl TypeError"
    by (rule animal_id_chain_raises)
  show "table_builder zoo_animals_callback = Inl TypeError"
    by (rule zoo_animals_callback_raises)
  show "up d = (Some TypeError, d)" by (rule up_fails)
  show "table_call_step (Tbl_foreign ''animal_id'' [References ''animals.id'']) empty_def =
     Inr (empty_def\<lparr>foreigns :=
       [\<lparr>fk_column = ''animal_id'', fk_references = Some ''id'', fk_inTable = Some ''animals'',
         fk_onDelete = None, fk_onUpdate = None\<rparr>]\<rparr>)"
    by (simp add: foreign_builder_def new_foreign_def references_call_def absorb_def empty_def_def)
  show "table_call_step
     (Tbl_integer ''zoo_id''
        [Unsigned, NotNullable, References ''id'', InTable ''zoos'',
         OnDelete ''CASCADE'', OnUpdate ''CASCADE'']) empty_def =
     Inr (empty_def\<lparr>
       columns := [\<lparr>col_name = ''zoo_id'', col_type = Integer_t, col_unsigned = True,
                    col_nullable = False\<rparr>],
       foreigns :=
       [\<lparr>fk_column = ''zoo_id'', fk_references = Some ''id'', fk_inTable = Some ''zoos'',
         fk_onDelete = Some ''CASCADE'', fk_onUpdate = Some ''CASCADE''\<rparr>]\<rparr>)"
    by (simp add: column_builder_def new_foreign_def references_call_def absorb_def empty_def_def)
  show "table_builder animals_callback = Inr animals_def" by (simp add: callbacks_build)
  show "foreigns animals_def =
     [\<lparr>fk_column = ''species_id'', fk_references = Some ''id'', fk_inTable = Some ''species'',
       fk_onDelete = Some ''CASCADE'', fk_onUpdate = Some ''CASCADE''\<rparr>]"
    by (simp add: animals_def_def)
qed

section \<open>The composite primary key\<close>

text \<open>
  Claim C2 fails on the code, by the defect of claim C1. The callback of \<^verbatim>\<open>zoo_animals\<close>
  throws before it reaches \<^verbatim>\<open>tbl.primary(["zoo_id", "animal_id"])\<close>, so \<^verbatim>\<open>up\<close> turns
  no call into a statement and a database without the table has none after \<^verbatim>\<open>up\<close>:
  there is no table to insert a pair into. The call of line 234 by itself declares the
  composite key the claim describes.
\<close>

theorem zoo_animals_is_never_created:
  "table_builder zoo_animals_callback = Inl TypeError \<and>
   toSQL exports_up = Inl TypeError \<and>
   map_of (snd (up d)) ''zoo_animals'' = map_of d ''zoo_animals'' \<and>
   map_of (snd (up [])) ''zoo_animals'' = None \<and>
   table_call_step (Tbl_primary [''zoo_id'', ''animal_id'']) td =
     Inr (td\<lparr>primaries := primaries td @ [[''zoo_id'', ''animal_id'']]\<rparr>)"
  by (simp add: zoo_animals_callback_raises toSQL_up up_fails)

section \<open>Applying twice\<close>

text \<open>
  Claim C7 fails on the code, by the defect of claim C1. \<^verbatim>\<open>up\<close> fails when a table of
  the set exists, but with the \<open>TypeError\<close> of the callback, thrown before any
  \<^verbatim>\<open>CREATE TABLE\<close> is sent, and never with \<open>AlreadyExists\<close>. The statement for
  \<^verbatim>\<open>species\<close>, had it been sent to the database where \<^verbatim>\<open>species\<close> exists, would have
  failed with \<open>AlreadyExists\<close>.
\<close>

theorem up_raises_before_any_create:
  "up species_db = (Some TypeError, species_db) \<and>
   map_of species_db ''species'' = Some (empty_table species_def) \<and>
   fst (up d) \<noteq> Some (AlreadyExists t) \<and>
   table_builder species_callback = Inr species_def \<and>
   exec (CreateSql ''species'' species_def) species_db = Inl (AlreadyExists ''species'')"
  by (simp add: up_fails species_db_def callbacks_build create_table_def)

section \<open>Unique columns\<close>

text \<open>
  Claim C8 fails on the code, by the defect of claim C1. The callbacks of \<^verbatim>\<open>zoos\<close> and
  \<^verbatim>\<open>species\<close> declare what the claim says: a unique index on \<^verbatim>\<open>address\<close>, one on
  \<^verbatim>\<open>species_name\<close>, and no key on \<^verbatim>\<open>zoo_name\<close>. But \<^verbatim>\<open>up\<close> runs every callback before
  it sends a statement, the fourth throws, and neither table is created: after \<^verbatim>\<open>up\<close>
  on the empty database there is no \<^verbatim>\<open>zoos\<close> table to insert into.
\<close>

theorem zoos_and_species_are_never_created:
  "table_builder zoos_callback = Inr zoos_def \<and>
   uniques zoos_def = [[''address'']] \<and> primaries zoos_def = [[''id'']] \<and>
   table_builder species_callback = Inr species_def \<and>
   uniques species_def = [[''species_name'']] \<and>
   fst (up []) = Some TypeError \<and>
   map_of (snd (up [])) ''zoos'' = None \<and> map_of (snd (up [])) ''species'' = None"
  by (simp add: callbacks_build up_fails zoos_def_def species_def_def)

section \<open>Referential integrity of animals\<close>

text \<open>
  Claim C9 fails on the code, by the defect of claim C1. The callback of \<^verbatim>\<open>animals\<close>
  declares \<^verbatim>\<open>species_id\<close> as the claim says: an unsigned integer, not nullable, with a
  foreign key to \<^verbatim>\<open>species.id\<close>. But \<^verbatim>\<open>up\<close> fails before any statement is sent, and
  after \<^verbatim>\<open>up\<close> on the empty database there is no \<^verbatim>\<open>animals\<close> table whose key could
  reject a row.
\<close>

theorem animals_is_never_created:
  "table_builder animals_callback = Inr animals_def \<and>
   \<lparr>col_name = ''species_id'', col_type = Integer_t, col_unsigned = True,
     col_nullable = False\<rparr> \<in> set (columns animals_def) \<and>
   map fk_column (foreigns animals_def) = [''species_id''] \<and>
   map fk_inTable (foreigns animals_def) = [Some ''species''] \<and>
   map fk_references (foreigns animals_def) = [Some ''id''] \<and>
   fst (up []) = Some TypeError \<and>
   map_of (snd (up [])) ''animals'' = None"
  by (simp add: callbacks_build up_fails animals_def_def)

section \<open>Apply, then revert\<close>

text \<open>
  Claim C3. From every database in which none of the four tables exists, \<^verbatim>\<open>up\<close>
  followed by \<^verbatim>\<open>down\<close> gives back the database as it was, and none of the four tables
  remains. \<^verbatim>\<open>up\<close> fails with the \<open>TypeError\<close> of claim C1 and changes nothing; \<^verbatim>\<open>down\<close>
  is the run of its four drops, each of which finds no table and does nothing.
\<close>

theorem up_then_down_restores:
  assumes "\<forall>t\<in>set table_set. map_of d t = None"
  shows "up d = (Some TypeError, d) \<and>
         down (snd (up d)) = (None, d) \<and>
         (\<forall>t\<in>set table_set. map_of (snd (down (snd (up d)))) t = None) \<and>
         (\<forall>e. down e = run_all down_statements e) \<and>
         list_all (\<lambda>q. exec q d = Inr d) down_statements"
proof (intro conjI)
  show "up d = (Some TypeError, d)" by (rule up_fails)
  show "down (snd (up d)) = (None, d)" using assms by (simp add: up_fails down_absent)
  then show "\<forall>t\<in>set table_set. map_of (snd (down (snd (up d)))) t = None"
    using assms by simp
  show "\<forall>e. down e = run_all down_statements e" by (simp add: down_eq)
  show "list_all (\<lambda>q. exec q d = Inr d) down_statements"
    using assms by (simp add: down_statements_def drop_table_if_exists_def table_set_def)
qed

theorem up_then_down_restores_witness:
  "list_all (\<lambda>t. map_of keepers_db t = None) table_set \<and>
   up keepers_db = (Some TypeError, keepers_db) \<and>
   down (snd (up keepers_db)) = (None, keepers_db) \<and>
   map_of (snd (down (snd (up keepers_db)))) ''zoos'' = None"
proof -
  have a: "\<forall>t\<in>set table_set. map_of keepers_db t = None"
    by (simp add: table_set_def keepers_db_def)
  have z: "''zoos'' \<in> set table_set" by (simp add: table_set_def)
  note t = up_then_down_restores [OF a]
  have u: "up keepers_db = (Some TypeError, keepers_db)" using t by blast
  have r: "down (snd (up keepers_db)) = (None, keepers_db)" using t by blast
  have g: "map_of (snd (down (snd (up keepers_db)))) ''zoos'' = None" using t z by blast
  have l: "list_all (\<lambda>t. map_of keepers_db t = None) table_set"
    using a by (simp add: list_all_iff)
  show ?thesis using l u r g by blast
qed

section \<open>The order of the statements\<close>



text \<open>
  Claim C5. \<^verbatim>\<open>down\<close> is the run of four drops: zoo_animals first, then animals, then
  species, then zoos, the exact reverse of the order in which \<^verbatim>\<open>up\<close> queues the
  creations. On the database that holds \<^verbatim>\<open>species\<close> and \<^verbatim>\<open>animals\<close> the run drops
  \<^verbatim>\<open>animals\<close> and then \<^verbatim>\<open>species\<close> and leaves nothing.
\<close>

theorem down_drops_in_reverse_order:
  "down d =
     run_all [DropIfExistsSql ''zoo_animals'', DropIfExistsSql ''animals'',
              DropIfExistsSql ''species'', DropIfExistsSql ''zoos''] d \<and>
   map target exports_down = [''zoo_animals'', ''animals'', ''species'', ''zoos''] \<and>
   map target exports_down = rev (map target exports_up) \<and>
   exec (DropIfExistsSql ''animals'') species_animals_db
     = Inr [(''species'', empty_table species_def)] \<and>
   down species_animals_db = (None, [])"
proof (intro conjI)
  show "down d =
     run_all [DropIfExistsSql ''zoo_animals'', DropIfExistsSql ''animals'',
              DropIfExistsSql ''species'', DropIfExistsSql ''zoos''] d"
    by (simp add: down_eq down_statements_def)
  show "map target exports_down = [''zoo_animals'', ''animals'', ''species'', ''zoos'']"
    by (simp add: exports_down_def target_def)
  show "map target exports_down = rev (map target exports_up)"
    by (simp add: exports_down_def exports_up_def target_def)
  show "exec (DropIfExistsSql ''animals'') species_animals_db
     = Inr [(''species'', empty_table species_def)]"
    by (simp add: species_animals_db_def drop_table_if_exists_def refers_def foreigns_of_def
        empty_table_def species_def_def animals_def_def)
  show "down species_animals_db = (None, [])"
    by (simp add: down_eq down_statements_def species_animals_db_def drop_table_if_exists_def
        refers_def foreigns_of_def empty_table_def species_def_def animals_def_def)
qed

section \<open>Reverting\<close>

text \<open>
  Claim C6, as stated, fails: \<^verbatim>\<open>down\<close> does not succeed from every starting state. In
  the database below a row of a table outside the set references a row of \<^verbatim>\<open>zoos\<close>,
  and the drop of \<^verbatim>\<open>zoos\<close> is refused.
\<close>

theorem down_fails_when_referenced_counterexample:
  "down tickets_db = (Some (ConstraintViolation ''zoos'' ''tickets''), tickets_db)"
  by (simp add: tickets_db_def tickets_def_def zoos_def_def foreigns_of_def
      down_eq down_statements_def drop_table_if_exists_def refers_def)

text \<open>
  Claim C6, amended. A drop of a table that does not exist does nothing, so \<^verbatim>\<open>down\<close>
  from a state where none of the four tables exists succeeds and changes nothing.
  \<^verbatim>\<open>down\<close> succeeds exactly from the revertible states: those in which every table of
  the set that exists is referenced only by itself and by tables that \<^verbatim>\<open>down\<close> drops
  before it. From such a state \<^verbatim>\<open>down\<close> removes the tables of the set and nothing else,
  and a second \<^verbatim>\<open>down\<close> succeeds and changes nothing. A state where none of the four
  tables exists is revertible, and \<^verbatim>\<open>up\<close> leaves a state as revertible as it found it.
\<close>

theorem down_tolerates_missing_tables:
  "((\<forall>t\<in>set table_set. map_of d t = None) \<longrightarrow> down d = (None, d) \<and> revertible d) \<and>
   ((fst (down d) = None) = revertible d) \<and>
   (revertible d \<longrightarrow>
      down d = (None, filter (\<lambda>(c, tb). c \<notin> set table_set) d) \<and>
      (\<forall>t\<in>set table_set. map_of (snd (down d)) t = None) \<and>
      down (snd (down d)) = (None, snd (down d))) \<and>
   revertible (snd (up d)) = revertible d"
proof (intro conjI impI)
  assume a: "\<forall>t\<in>set table_set. map_of d t = None"
  then show "down d = (None, d)" by (rule down_absent)
  from a show "revertible d" by (rule absent_revertible)
next
  show "(fst (down d) = None) = revertible d" by (rule down_succeeds_iff)
  show "revertible (snd (up d)) = revertible d" by (simp add: up_fails)
next
  assume r: "revertible d"
  then show dn: "down d = (None, filter (\<lambda>(c, tb). c \<notin> set table_set) d)"
    by (rule down_revertible)
  show gone: "\<forall>t\<in>set table_set. map_of (snd (down d)) t = None"
    by (simp add: dn map_of_keep)
  show "down (snd (down d)) = (None, snd (down d))"
    using gone by (rule down_absent)
qed

theorem down_tolerates_missing_tables_witness:
  "list_all (\<lambda>t. map_of keepers_db t = None) table_set \<and>
   down keepers_db = (None, keepers_db) \<and>
   revertible partial_db \<and> down partial_db = (None, []) \<and> down [] = (None, [])"
proof -
  have a: "\<forall>t\<in>set table_set. map_of keepers_db t = None"
    by (simp add: table_set_def keepers_db_def)
  have r: "revertible partial_db"
    by (simp add: revertible_def partial_db_def foreigns_of_def empty_table_def zoos_def_def
        species_def_def)
  have f: "filter (\<lambda>(c, tb). c \<notin> set table_set) partial_db = []"
    by (simp add: partial_db_def table_set_def)
  note k = down_tolerates_missing_tables [of keepers_db]
  note p = down_tolerates_missing_tables [of partial_db]
  have 1: "down keepers_db = (None, keepers_db)" using k a by blast
  have 2: "down partial_db = (None, filter (\<lambda>(c, tb). c \<notin> set table_set) partial_db)"
    using p r by blast
  have 3: "down (snd (down partial_db)) = (None, snd (down partial_db))" using p r by blast
  have 4: "down [] = (None, [])" using 3 by (simp add: 2 f)
  show ?thesis using a r 1 2 4 by (simp add: f list_all_iff)
qed

section \<open>The tables the migration touches\<close>

text \<open>
  Claim C10. \<^verbatim>\<open>up\<close> and \<^verbatim>\<open>down\<close> are the runs of two queues whose calls name the four
  tables only. \<^verbatim>\<open>up\<close> changes no table at all and inserts no row: it leaves the database
  as it found it. \<^verbatim>\<open>down\<close> leaves the database with some tables of the set removed and
  everything else as it was, in the same order, whatever the outcome. So a table
  outside the set is the same after \<^verbatim>\<open>up\<close> and after \<^verbatim>\<open>down\<close> as before.
\<close>

theorem migration_touches_only_its_tables:
  "up d = run_schema exports_up d \<and> down d = run_schema exports_down d \<and>
   snd (up d) = d \<and>
   (\<exists>S. S \<subseteq> set table_set \<and> snd (down d) = filter (\<lambda>(c, tb). c \<notin> S) d) \<and>
   (\<forall>t. t \<notin> set table_set \<longrightarrow>
        map_of (snd (up d)) t = map_of d t \<and> map_of (snd (down d)) t = map_of d t) \<and>
   set (map target exports_up) = set table_set \<and>
   set (map target exports_down) = set table_set"
proof (intro conjI allI impI)
  show "up d = run_schema exports_up d" by (simp add: up_def)
  show "down d = run_schema exports_down d" by (simp add: down_def)
  show "snd (up d) = d" by (simp add: up_fails)
  show "\<exists>S. S \<subseteq> set table_set \<and> snd (down d) = filter (\<lambda>(c, tb). c \<notin> S) d"
    by (rule down_removes)
  show "set (map target exports_up) = set table_set"
    by (auto simp: exports_up_def target_def table_set_def)
  show "set (map target exports_down) = set table_set"
    by (auto simp: exports_down_def target_def table_set_def)
next
  fix t assume "t \<notin> set table_set"
  then show "map_of (snd (down d)) t = map_of d t" by (rule down_frame)
next
  fix t
  show "map_of (snd (up d)) t = map_of d t" by (simp add: up_fails)
qed

theorem migration_touches_only_its_tables_witness:
  "''keepers'' \<notin> set table_set \<and>
   snd (up mixed_db) = mixed_db \<and>
   down mixed_db = (None, keepers_db) \<and>
   map_of (snd (down mixed_db)) ''keepers'' = map_of mixed_db ''keepers'' \<and>
   map_of mixed_db ''keepers'' = map_of keepers_db ''keepers''"
proof -
  have n: "''keepers'' \<notin> set table_set" by (simp add: table_set_def)
  note t = migration_touches_only_its_tables [of mixed_db]
  have u: "snd (up mixed_db) = mixed_db" using t by blast
  have k: "map_of (snd (down mixed_db)) ''keepers'' = map_of mixed_db ''keepers''"
    using t n by blast
  have r: "revertible mixed_db"
    by (simp add: revertible_def mixed_db_def keepers_db_def partial_db_def foreigns_of_def
        empty_table_def zoos_def_def species_def_def)
  have d: "down mixed_db = (None, keepers_db)"
    unfolding down_revertible [OF r]
    by (simp add: mixed_db_def keepers_db_def partial_db_def table_set_def)
  have m: "map_of mixed_db ''keepers'' = map_of keepers_db ''keepers''"
    by (simp add: mixed_db_def keepers_db_def)
  show ?thesis using n u d k m by blast
qed

end
